theory Spec2Isabelle
  imports Complex_Main
begin

section \<open>Payload values and Python equality\<close>

text \<open>
  Payloads, bodies and conditions are \<^verbatim>\<open>dict[str, object]\<close> holding JSON scalars:
  null, booleans, integers and strings. Python's \<^verbatim>\<open>==\<close> on them is structural, except
  that \<^verbatim>\<open>bool\<close> is a subclass of \<^verbatim>\<open>int\<close>: \<^verbatim>\<open>True == 1\<close> and \<^verbatim>\<open>False == 0\<close>.
  Floating-point numbers and nested containers are left out.
\<close>

datatype pyval = PNone | PBool bool | PInt int | PStr string

fun py_eq :: "pyval \<Rightarrow> pyval \<Rightarrow> bool" where
  "py_eq (PBool a) (PInt b) = ((if a then 1 else 0) = b)"
| "py_eq (PInt a) (PBool b) = (a = (if b then 1 else 0))"
| "py_eq x y = (x = y)"

type_synonym pydict = "string \<rightharpoonup> pyval"

text \<open>\<^verbatim>\<open>d.get(k)\<close>: the value stored under \<open>k\<close>, and \<^verbatim>\<open>None\<close> when the key is absent.\<close>

definition dict_get :: "pydict \<Rightarrow> string \<Rightarrow> pyval" where
  "dict_get d k = (case d k of None \<Rightarrow> PNone | Some v \<Rightarrow> v)"

section \<open>Exceptions and checked indexing\<close>

datatype exn = ToolNotFoundError string | IndexError | ZeroDivisionError | OverflowError

text \<open>\<^verbatim>\<open>xs[i]\<close>: a negative index counts from the end; out of range raises.\<close>

definition py_index :: "'a list \<Rightarrow> int \<Rightarrow> exn + 'a" where
  "py_index xs i =
     (if 0 \<le> i \<and> i < int (length xs) then Inr (xs ! nat i)
      else if i < 0 \<and> - int (length xs) \<le> i then Inr (xs ! nat (int (length xs) + i))
      else Inl IndexError)"

text \<open>\<^verbatim>\<open>a % b\<close> on non-negative integers; a zero divisor raises.\<close>

definition py_mod :: "nat \<Rightarrow> nat \<Rightarrow> exn + nat" where
  "py_mod a b = (if b = 0 then Inl ZeroDivisionError else Inr (a mod b))"

section \<open>Data model (models.py)\<close>

text \<open>
  A Python float is a finite number (read as the real it denotes), an infinity or NaN.
  \<open>error_rate\<close> is validated to lie in \<open>[0, 1]\<close>, so it is a real. \<open>latency_ms\<close> is only
  validated not to be negative, and \<open>default_latency_ms\<close> is not validated, so both
  range over all floats. \<open>float_pos x\<close> is \<^verbatim>\<open>x > 0\<close>, false for NaN.
\<close>

datatype pyfloat = Finite real | PosInf | NegInf | NaN

fun float_pos :: "pyfloat \<Rightarrow> bool" where
  "float_pos (Finite r) = (0 < r)"
| "float_pos PosInf = True"
| "float_pos NegInf = False"
| "float_pos NaN = False"

record MockResponse =
  status_code :: int
  body :: pydict
  latency_ms :: pyfloat
  headers :: "string \<rightharpoonup> string"

datatype MockBehavior = static | sequential | random | error | conditional

text \<open>
  \<open>conditions\<close> is an optional dict; the engine iterates over its items, so it is kept
  as the list of its items.
\<close>

record ToolMock =
  tool_name :: string
  behavior :: MockBehavior
  responses :: "MockResponse list"
  error_rate :: real
  conditions :: "(string \<times> pyval) list option"

record EmulatorConfig =
  mocks :: "ToolMock list"
  default_latency_ms :: pyfloat
  record_calls :: bool

record RecordedCall =
  call_tool_name :: string
  input_data :: pydict
  response :: MockResponse
  timestamp :: nat

section \<open>Environment of one call\<close>

text \<open>
  What a call reads from outside the emulator: the value of \<^verbatim>\<open>random.random()\<close>, the
  integer behind \<^verbatim>\<open>random.choice\<close> (which returns \<^verbatim>\<open>seq[randbelow(len(seq))]\<close>, so every
  index below the length arises as \<open>pick mod length\<close>), and the clock.
\<close>

record env =
  draw :: real
  pick :: nat
  now :: nat

section \<open>List objects\<close>

text \<open>
  The call log is a mutable list object. List objects live in a store, addressed by
  references, so that a copy and an alias are different things.
\<close>

type_synonym ref = nat

record store =
  cells :: "ref \<Rightarrow> RecordedCall list"
  next_ref :: ref

definition new_list :: "RecordedCall list \<Rightarrow> store \<Rightarrow> ref \<times> store" where
  "new_list xs s = (next_ref s, s\<lparr>cells := (cells s)(next_ref s := xs), next_ref := Suc (next_ref s)\<rparr>)"

text \<open>Any in-place mutation of the list object at \<open>r\<close> leaves it with some contents \<open>xs\<close>.\<close>

definition list_write :: "ref \<Rightarrow> RecordedCall list \<Rightarrow> store \<Rightarrow> store" where
  "list_write r xs s = s\<lparr>cells := (cells s)(r := xs)\<rparr>"

section \<open>The emulator (core.py)\<close>

record ToolEmulator =
  emu_config :: EmulatorConfig
  emu_mocks :: "string \<rightharpoonup> ToolMock"
  sequence_positions :: "string \<rightharpoonup> nat"
  recorded_calls :: ref

text \<open>\<^verbatim>\<open>{m.tool_name: m for m in config.mocks}\<close>: entries are stored in order.\<close>

definition build_mocks :: "ToolMock list \<Rightarrow> (string \<rightharpoonup> ToolMock)" where
  "build_mocks ms = fold (\<lambda>m reg. reg(tool_name m \<mapsto> m)) ms Map.empty"

definition init :: "EmulatorConfig \<Rightarrow> store \<Rightarrow> ToolEmulator \<times> store" where
  "init cfg s =
     (let (r, s') = new_list [] s
      in (\<lparr>emu_config = cfg, emu_mocks = build_mocks (mocks cfg),
           sequence_positions = Map.empty, recorded_calls = r\<rparr>, s'))"

definition injected_error_response :: "ToolMock \<Rightarrow> MockResponse" where
  "injected_error_response mock =
     \<lparr>status_code = 500,
      body = [''error'' \<mapsto> PStr ''injected_error'', ''tool'' \<mapsto> PStr (tool_name mock)],
      latency_ms = Finite 0, headers = Map.empty\<rparr>"

definition tool_error_response :: "ToolMock \<Rightarrow> MockResponse" where
  "tool_error_response mock =
     \<lparr>status_code = 500,
      body = [''error'' \<mapsto> PStr ''tool_error'', ''tool'' \<mapsto> PStr (tool_name mock)],
      latency_ms = Finite 0, headers = Map.empty\<rparr>"

definition default_response :: MockResponse where
  "default_response = \<lparr>status_code = 200, body = Map.empty, latency_ms = Finite 0, headers = Map.empty\<rparr>"

text \<open>The guard of the fault-injection branch (core.py line 102).\<close>

definition fault_injected :: "ToolMock \<Rightarrow> env \<Rightarrow> bool" where
  "fault_injected mock ev \<longleftrightarrow> error_rate mock > 0 \<and> draw ev < error_rate mock"

text \<open>\<^verbatim>\<open>all(input_data.get(k) == v for k, v in mock.conditions.items())\<close>\<close>

definition matched :: "(string \<times> pyval) list \<Rightarrow> pydict \<Rightarrow> bool" where
  "matched conds inp = list_all (\<lambda>(k, v). py_eq (dict_get inp k) v) conds"

text \<open>The \<^verbatim>\<open>for response in mock.responses\<close> loop; \<open>None\<close> when it falls through.\<close>

fun match_loop :: "(string \<times> pyval) list \<Rightarrow> pydict \<Rightarrow> MockResponse list \<Rightarrow> MockResponse option" where
  "match_loop conds inp [] = None"
| "match_loop conds inp (r # rs) = (if matched conds inp then Some r else match_loop conds inp rs)"

definition match_conditional :: "ToolMock \<Rightarrow> pydict \<Rightarrow> exn + MockResponse" where
  "match_conditional mock inp =
     (if conditions mock = None \<or> responses mock = [] then
        (if responses mock \<noteq> [] then py_index (responses mock) 0 else Inr default_response)
      else
        (case match_loop (the (conditions mock)) inp (responses mock) of
           Some r \<Rightarrow> Inr r
         | None \<Rightarrow> py_index (responses mock) (- 1)))"

text \<open>
  \<open>select_response\<close> takes the cursor map and returns the response with the updated
  cursor map, or the exception raised. The enumeration is closed, so the final fallback
  of the source (\<^verbatim>\<open>responses[0]\<close>) is what is left for \<open>error\<close>, which the second test has
  already answered.
\<close>

definition select_response ::
  "(string \<rightharpoonup> nat) \<Rightarrow> env \<Rightarrow> ToolMock \<Rightarrow> pydict \<Rightarrow> exn + (MockResponse \<times> (string \<rightharpoonup> nat))" where
  "select_response positions ev mock inp =
     (if fault_injected mock ev then Inr (injected_error_response mock, positions)
      else if behavior mock = error then Inr (tool_error_response mock, positions)
      else if responses mock = [] then Inr (default_response, positions)
      else (case behavior mock of
          static \<Rightarrow> map_sum id (\<lambda>r. (r, positions)) (py_index (responses mock) 0)
        | sequential \<Rightarrow>
            (let pos = (case positions (tool_name mock) of None \<Rightarrow> 0 | Some p \<Rightarrow> p) in
             case py_mod pos (length (responses mock)) of
               Inl x \<Rightarrow> Inl x
             | Inr j \<Rightarrow>
                 (case py_index (responses mock) (int j) of
                    Inl x \<Rightarrow> Inl x
                  | Inr r \<Rightarrow> Inr (r, positions(tool_name mock \<mapsto> pos + 1))))
        | random \<Rightarrow>
            map_sum id (\<lambda>r. (r, positions))
              (py_index (responses mock) (int (pick ev mod length (responses mock))))
        | conditional \<Rightarrow> map_sum id (\<lambda>r. (r, positions)) (match_conditional mock inp)
        | error \<Rightarrow> map_sum id (\<lambda>r. (r, positions)) (py_index (responses mock) 0)))"

text \<open>
  \<^verbatim>\<open>time.sleep(latency / 1000.0)\<close>, reached only when \<^verbatim>\<open>latency > 0\<close>. CPython keeps
  the duration as a signed 64-bit count of nanoseconds and raises \<open>OverflowError\<close> when
  it does not fit, as for an infinite duration. The rounding of the floating-point
  division is not modelled.
\<close>

definition sleep_raises :: "pyfloat \<Rightarrow> bool" where
  "sleep_raises latency =
     (case latency of
        Finite r \<Rightarrow> 2 ^ 63 \<le> r / 1000 * 10 ^ 9
      | PosInf \<Rightarrow> True
      | NegInf \<Rightarrow> False
      | NaN \<Rightarrow> False)"

text \<open>The latency a call simulates for the chosen response (core.py line 63).\<close>

definition call_latency :: "ToolEmulator \<Rightarrow> MockResponse \<Rightarrow> pyfloat" where
  "call_latency e r =
     (if float_pos (latency_ms r) then latency_ms r else default_latency_ms (emu_config e))"

text \<open>
  \<open>call\<close> returns what the caller gets (the response or the exception) together with
  the emulator and the store as the call leaves them. When the sleep raises, the cursor
  has already been advanced and nothing is recorded.
\<close>

definition call ::
  "ToolEmulator \<Rightarrow> store \<Rightarrow> env \<Rightarrow> string \<Rightarrow> pydict \<Rightarrow> (exn + MockResponse) \<times> ToolEmulator \<times> store" where
  "call e s ev name inp =
     (case emu_mocks e name of
        None \<Rightarrow> (Inl (ToolNotFoundError name), e, s)
      | Some mock \<Rightarrow>
          (case select_response (sequence_positions e) ev mock inp of
             Inl x \<Rightarrow> (Inl x, e, s)
           | Inr (resp, positions') \<Rightarrow>
               (let e' = e\<lparr>sequence_positions := positions'\<rparr>;
                    latency = call_latency e resp
                in if float_pos latency \<and> sleep_raises latency then (Inl OverflowError, e', s)
                   else (Inr resp, e',
                         if record_calls (emu_config e) then
                           list_write (recorded_calls e)
                             (cells s (recorded_calls e) @
                                [\<lparr>call_tool_name = name, input_data = inp,
                                  response = resp, timestamp = now ev\<rparr>]) s
                         else s))))"

text \<open>\<^verbatim>\<open>list(self._recorded_calls)\<close>: a new list object with the same elements.\<close>

definition get_recorded_calls :: "ToolEmulator \<Rightarrow> store \<Rightarrow> ref \<times> store" where
  "get_recorded_calls e s = new_list (cells s (recorded_calls e)) s"

definition reset :: "ToolEmulator \<Rightarrow> store \<Rightarrow> ToolEmulator \<times> store" where
  "reset e s = (e\<lparr>sequence_positions := Map.empty\<rparr>, list_write (recorded_calls e) [] s)"

definition add_mock :: "ToolMock \<Rightarrow> ToolEmulator \<Rightarrow> ToolEmulator" where
  "add_mock mock e = e\<lparr>emu_mocks := (emu_mocks e)(tool_name mock \<mapsto> mock)\<rparr>"

text \<open>The contents of the emulator's call log.\<close>

definition log_of :: "ToolEmulator \<Rightarrow> store \<Rightarrow> RecordedCall list" where
  "log_of e s = cells s (recorded_calls e)"


text \<open>A sequence of calls, each with its environment, run one after the other.\<close>

fun run_calls ::
  "(env \<times> string \<times> pydict) list \<Rightarrow> ToolEmulator \<Rightarrow> store \<Rightarrow> (exn + MockResponse) list \<times> ToolEmulator \<times> store" where
  "run_calls [] e s = ([], e, s)"
| "run_calls ((ev, name, inp) # cs) e s =
     (case call e s ev name inp of
        (res, e', s') \<Rightarrow> (case run_calls cs e' s' of (rs, e'', s'') \<Rightarrow> (res # rs, e'', s'')))"

text \<open>The sleep of a call that chose response \<open>r\<close> does not raise.\<close>

definition sleep_accepts :: "ToolEmulator \<Rightarrow> MockResponse \<Rightarrow> bool" where
  "sleep_accepts e r \<longleftrightarrow> \<not> (float_pos (call_latency e r) \<and> sleep_raises (call_latency e r))"

text \<open>Every registered mock is stored under its own name.\<close>

definition registry_ok :: "ToolEmulator \<Rightarrow> bool" where
  "registry_ok e \<longleftrightarrow> (\<forall>n m. emu_mocks e n = Some m \<longrightarrow> tool_name m = n)"

section \<open>The specification's wording\<close>

text \<open>
  The specification's criterion for a conditional match: for every key/value pair of
  the conditions, the input contains that key and its value compares equal.
\<close>

definition spec_match :: "(string \<times> pyval) list \<Rightarrow> pydict \<Rightarrow> bool" where
  "spec_match conds inp =
     list_all (\<lambda>(k, v). case inp k of None \<Rightarrow> False | Some w \<Rightarrow> py_eq w v) conds"

text \<open>
  The log entries a sequence of calls is specified to leave: one per call that returned
  a response, in call order, with the tool name, the input and the response returned.
\<close>

definition expected_records ::
  "(env \<times> string \<times> pydict) list \<Rightarrow> (exn + MockResponse) list \<Rightarrow> RecordedCall list" where
  "expected_records cs rs =
     concat (map2 (\<lambda>(ev, name, inp) res.
        case res of Inl x \<Rightarrow> []
        | Inr r \<Rightarrow> [\<lparr>call_tool_name = name, input_data = inp, response = r, timestamp = now ev\<rparr>])
      cs rs)"

section \<open>Example configurations (tests/conftest.py)\<close>

definition store0 :: store where
  "store0 = \<lparr>cells = (\<lambda>_. []), next_ref = 0\<rparr>"

definition env0 :: env where
  "env0 = \<lparr>draw = 0, pick = 0, now = 0\<rparr>"

definition config_of :: "ToolMock list \<Rightarrow> bool \<Rightarrow> EmulatorConfig" where
  "config_of ms rec = \<lparr>mocks = ms, default_latency_ms = Finite 0, record_calls = rec\<rparr>"

definition prod_response :: MockResponse where
  "prod_response = \<lparr>status_code = 200, body = [''environment'' \<mapsto> PStr ''prod''],
     latency_ms = Finite 0, headers = Map.empty\<rparr>"

definition other_response :: MockResponse where
  "other_response = \<lparr>status_code = 200, body = [''environment'' \<mapsto> PStr ''other''],
     latency_ms = Finite 0, headers = Map.empty\<rparr>"

definition conditional_mock :: "(string \<times> pyval) list \<Rightarrow> ToolMock" where
  "conditional_mock conds = \<lparr>tool_name = ''cond_tool'', behavior = conditional,
     responses = [prod_response, other_response], error_rate = 0, conditions = Some conds\<rparr>"

definition cond_emulator :: "(string \<times> pyval) list \<Rightarrow> ToolEmulator" where
  "cond_emulator conds = fst (init (config_of [conditional_mock conds] False) store0)"

definition cond_store :: "(string \<times> pyval) list \<Rightarrow> store" where
  "cond_store conds = snd (init (config_of [conditional_mock conds] False) store0)"

definition ok_response :: MockResponse where
  "ok_response = \<lparr>status_code = 200, body = [''ok'' \<mapsto> PBool True],
     latency_ms = Finite 0, headers = Map.empty\<rparr>"

definition rate_mock :: "MockBehavior \<Rightarrow> real \<Rightarrow> MockResponse list \<Rightarrow> ToolMock" where
  "rate_mock b rate rs = \<lparr>tool_name = ''tool'', behavior = b, responses = rs,
     error_rate = rate, conditions = None\<rparr>"

definition emulator_of :: "ToolMock list \<Rightarrow> bool \<Rightarrow> ToolEmulator" where
  "emulator_of ms rec = fst (init (config_of ms rec) store0)"

definition store1 :: store where
  "store1 = snd (init (config_of [] False) store0)"


definition step_response :: "nat \<Rightarrow> MockResponse" where
  "step_response n = \<lparr>status_code = (if n = 3 then 201 else 200), body = [''step'' \<mapsto> PInt (int n)],
     latency_ms = Finite 0, headers = Map.empty\<rparr>"

definition sequential_mock :: ToolMock where
  "sequential_mock = \<lparr>tool_name = ''seq_tool'', behavior = sequential,
     responses = [step_response 1, step_response 2, step_response 3], error_rate = 0,
     conditions = None\<rparr>"

definition teapot_response :: MockResponse where
  "teapot_response = \<lparr>status_code = 418, body = [''replaced'' \<mapsto> PBool True],
     latency_ms = Finite 0, headers = Map.empty\<rparr>"

definition server_error_response :: MockResponse where
  "server_error_response = \<lparr>status_code = 500, body = [''error'' \<mapsto> PStr ''server_error''],
     latency_ms = Finite 0, headers = Map.empty\<rparr>"

text \<open>
  An emulator whose default latency is \<open>10\<^sup>1\<^sup>3\<close> milliseconds, more than
  \<^verbatim>\<open>time.sleep\<close> accepts.
\<close>

definition slow_emulator :: "ToolMock list \<Rightarrow> ToolEmulator" where
  "slow_emulator ms =
     fst (init \<lparr>mocks = ms, default_latency_ms = Finite (10 ^ 13), record_calls = False\<rparr> store0)"

section \<open>Basic facts\<close>

lemma py_index_first: "xs \<noteq> [] \<Longrightarrow> py_index xs 0 = Inr (xs ! 0)"
  by (simp add: py_index_def)

lemma py_index_last: "xs \<noteq> [] \<Longrightarrow> py_index xs (- 1) = Inr (last xs)"
  by (cases xs rule: rev_cases) (simp_all add: py_index_def nth_append)

lemma py_index_nat: "j < length xs \<Longrightarrow> py_index xs (int j) = Inr (xs ! j)"
  by (simp add: py_index_def)

lemma match_loop_eq:
  "match_loop conds inp rs = (if matched conds inp \<and> rs \<noteq> [] then Some (rs ! 0) else None)"
  by (induction rs) simp_all

lemma match_conditional_some:
  assumes "conditions mock = Some conds" and "responses mock \<noteq> []"
  shows "match_conditional mock inp =
           Inr (if matched conds inp then responses mock ! 0 else last (responses mock))"
  using assms by (simp add: match_conditional_def match_loop_eq py_index_last)

lemma matched_spec_match:
  "\<forall>(k, v) \<in> set conds. v \<noteq> PNone \<Longrightarrow> matched conds inp = spec_match conds inp"
proof (induction conds)
  case Nil
  then show ?case by (simp add: matched_def spec_match_def)
next
  case (Cons c conds)
  obtain k v where c: "c = (k, v)" by (cases c)
  from Cons.prems c have v: "v \<noteq> PNone" by simp
  have "py_eq (dict_get inp k) v = (case inp k of None \<Rightarrow> False | Some w \<Rightarrow> py_eq w v)"
    using v by (cases "inp k"; cases v) (simp_all add: dict_get_def)
  with Cons c show ?case by (simp add: matched_def spec_match_def)
qed

lemma map_sum_id_Inr: "map_sum id f x = Inr y \<longleftrightarrow> (\<exists>z. x = Inr z \<and> y = f z)"
  by (cases x) auto

subsection \<open>The selection engine never raises\<close>

lemma select_response_total:
  "\<exists>r p. select_response positions ev mock inp = Inr (r, p)"
proof (cases "fault_injected mock ev \<or> behavior mock = error \<or> responses mock = []")
  case True
  then show ?thesis by (auto simp: select_response_def)
next
  case False
  then have ne: "responses mock \<noteq> []" and nf: "\<not> fault_injected mock ev" by simp_all
  have len: "0 < length (responses mock)" using ne by simp
  show ?thesis
  proof (cases "behavior mock")
    case static
    with ne nf show ?thesis by (simp add: select_response_def py_index_first)
  next
    case sequential
    with ne nf len show ?thesis
      by (simp add: select_response_def py_mod_def py_index_nat Let_def)
  next
    case random
    with ne nf len show ?thesis by (simp add: select_response_def py_index_nat)
  next
    case error
    with False show ?thesis by simp
  next
    case conditional
    show ?thesis
    proof (cases "conditions mock")
      case None
      with conditional ne nf show ?thesis
        by (simp add: select_response_def match_conditional_def py_index_first)
    next
      case (Some conds)
      with conditional ne nf show ?thesis
        by (simp add: select_response_def match_conditional_some)
    qed
  qed
qed

lemma select_response_positions:
  assumes "select_response positions ev mock inp = Inr (r, p)"
  shows "p = positions \<or>
         p = positions(tool_name mock \<mapsto> (case positions (tool_name mock) of None \<Rightarrow> 0 | Some q \<Rightarrow> q) + 1)"
  using assms
  by (cases "behavior mock")
     (auto simp: select_response_def Let_def map_sum_id_Inr split: if_splits sum.splits)

lemma select_conditional:
  assumes "behavior mock = conditional" "conditions mock = Some conds" "responses mock \<noteq> []"
    "\<not> fault_injected mock ev"
  shows "select_response positions ev mock inp =
           Inr (if matched conds inp then responses mock ! 0 else last (responses mock), positions)"
  using assms by (simp add: select_response_def match_conditional_some)

lemma error_rate_zero_no_fault: "error_rate mock = 0 \<Longrightarrow> \<not> fault_injected mock ev"
  by (simp add: fault_injected_def)

lemma select_injected:
  "fault_injected mock ev \<Longrightarrow>
   select_response positions ev mock inp = Inr (injected_error_response mock, positions)"
  by (simp add: select_response_def)

lemma select_error_policy:
  "\<not> fault_injected mock ev \<Longrightarrow> behavior mock = error \<Longrightarrow>
   select_response positions ev mock inp = Inr (tool_error_response mock, positions)"
  by (simp add: select_response_def)

lemma select_empty_pool:
  "\<not> fault_injected mock ev \<Longrightarrow> behavior mock \<noteq> error \<Longrightarrow> responses mock = [] \<Longrightarrow>
   select_response positions ev mock inp = Inr (default_response, positions)"
  by (simp add: select_response_def)

lemma select_from_pool:
  assumes "\<not> fault_injected mock ev" "behavior mock \<noteq> error" "responses mock \<noteq> []"
  shows "\<exists>r p. select_response positions ev mock inp = Inr (r, p) \<and> r \<in> set (responses mock)"
proof -
  have len: "0 < length (responses mock)" using assms(3) by simp
  show ?thesis
  proof (cases "behavior mock")
    case static
    with assms show ?thesis by (simp add: select_response_def py_index_first)
  next
    case sequential
    with assms len show ?thesis
      by (simp add: select_response_def py_mod_def py_index_nat Let_def)
  next
    case random
    with assms len show ?thesis by (simp add: select_response_def py_index_nat)
  next
    case error
    with assms show ?thesis by simp
  next
    case conditional
    show ?thesis
    proof (cases "conditions mock")
      case None
      with conditional assms show ?thesis
        by (simp add: select_response_def match_conditional_def py_index_first)
    next
      case (Some conds)
      with conditional assms show ?thesis
        by (simp add: select_response_def match_conditional_some)
    qed
  qed
qed

lemma select_sequential:
  assumes "behavior mock = sequential" "responses mock \<noteq> []" "\<not> fault_injected mock ev"
  shows "select_response positions ev mock inp =
     Inr (responses mock !
            ((case positions (tool_name mock) of None \<Rightarrow> 0 | Some p \<Rightarrow> p) mod length (responses mock)),
          positions(tool_name mock \<mapsto> (case positions (tool_name mock) of None \<Rightarrow> 0 | Some p \<Rightarrow> p) + 1))"
proof -
  have "0 < length (responses mock)" using assms(2) by simp
  then show ?thesis using assms
    by (simp add: select_response_def py_mod_def py_index_nat Let_def)
qed

lemma select_no_cursor_change:
  assumes "fault_injected mock ev \<or> behavior mock \<noteq> sequential \<or> responses mock = []"
    "select_response positions ev mock inp = Inr (r, p)"
  shows "p = positions"
  using assms
  by (cases "behavior mock")
     (auto simp: select_response_def Let_def map_sum_id_Inr split: if_splits)

subsection \<open>What a call returns\<close>

lemma call_unregistered:
  "emu_mocks e name = None \<Longrightarrow> call e s ev name inp = (Inl (ToolNotFoundError name), e, s)"
  by (simp add: call_def)

lemma call_result:
  assumes "emu_mocks e name = Some mock"
    "select_response (sequence_positions e) ev mock inp = Inr (r, p)"
  shows "call e s ev name inp =
     (if sleep_accepts e r then
        (Inr r, e\<lparr>sequence_positions := p\<rparr>,
         if record_calls (emu_config e) then
           list_write (recorded_calls e)
             (cells s (recorded_calls e) @
                [\<lparr>call_tool_name = name, input_data = inp, response = r, timestamp = now ev\<rparr>]) s
         else s)
      else (Inl OverflowError, e\<lparr>sequence_positions := p\<rparr>, s))"
  using assms by (simp add: call_def Let_def sleep_accepts_def)

lemma call_registered:
  assumes "emu_mocks e name = Some mock"
    "select_response (sequence_positions e) ev mock inp = Inr (r, p)"
    "sleep_accepts e r"
  shows "fst (call e s ev name inp) = Inr r"
  using assms by (simp add: call_result)

lemma call_overflow:
  assumes "emu_mocks e name = Some mock"
    "select_response (sequence_positions e) ev mock inp = Inr (r, p)"
    "\<not> sleep_accepts e r"
  shows "fst (call e s ev name inp) = Inl OverflowError"
  using assms by (simp add: call_result)

lemma call_positions:
  assumes "emu_mocks e name = Some mock"
    "select_response (sequence_positions e) ev mock inp = Inr (r, p)"
  shows "sequence_positions (fst (snd (call e s ev name inp))) = p"
  using assms by (simp add: call_result)

lemma call_frame:
  "emu_mocks (fst (snd (call e s ev name inp))) = emu_mocks e"
  "emu_config (fst (snd (call e s ev name inp))) = emu_config e"
  "recorded_calls (fst (snd (call e s ev name inp))) = recorded_calls e"
  "next_ref (snd (snd (call e s ev name inp))) = next_ref s"
  by (simp_all add: call_def Let_def list_write_def split: option.splits sum.splits prod.splits)

lemma call_fst_cong:
  "emu_mocks e1 = emu_mocks e2 \<Longrightarrow> sequence_positions e1 = sequence_positions e2 \<Longrightarrow>
   default_latency_ms (emu_config e1) = default_latency_ms (emu_config e2) \<Longrightarrow>
   fst (call e1 s1 ev name inp) = fst (call e2 s2 ev name inp)"
  by (auto simp: call_def Let_def call_latency_def split: option.splits sum.splits prod.splits)

lemma sleep_accepts_zero:
  "latency_ms r = Finite 0 \<Longrightarrow> default_latency_ms (emu_config e) = Finite 0 \<Longrightarrow> sleep_accepts e r"
  by (simp add: sleep_accepts_def call_latency_def)

lemma sleep_rejects_slow:
  "latency_ms r = Finite 0 \<Longrightarrow> default_latency_ms (emu_config e) = Finite (10 ^ 13) \<Longrightarrow>
   \<not> sleep_accepts e r"
  by (simp add: sleep_accepts_def call_latency_def sleep_raises_def)

subsection \<open>The example configurations\<close>

lemma init_fields:
  "emu_mocks (fst (init cfg s)) = build_mocks (mocks cfg)"
  "sequence_positions (fst (init cfg s)) = Map.empty"
  "emu_config (fst (init cfg s)) = cfg"
  "recorded_calls (fst (init cfg s)) = next_ref s"
  "next_ref (snd (init cfg s)) = Suc (next_ref s)"
  "cells (snd (init cfg s)) (next_ref s) = []"
  by (simp_all add: init_def new_list_def)

lemma build_mocks_single: "build_mocks [m] = [tool_name m \<mapsto> m]"
  by (simp add: build_mocks_def)

lemma emulator_of_fields:
  "emu_mocks (emulator_of ms rec) = build_mocks ms"
  "sequence_positions (emulator_of ms rec) = Map.empty"
  "recorded_calls (emulator_of ms rec) = 0"
  "emu_config (emulator_of ms rec) = config_of ms rec"
  "default_latency_ms (config_of ms rec) = Finite 0"
  "record_calls (config_of ms rec) = rec"
  "mocks (config_of ms rec) = ms"
  by (simp_all add: emulator_of_def init_fields store0_def config_of_def)

lemma slow_emulator_fields:
  "emu_mocks (slow_emulator ms) = build_mocks ms"
  "sequence_positions (slow_emulator ms) = Map.empty"
  "default_latency_ms (emu_config (slow_emulator ms)) = Finite (10 ^ 13)"
  by (simp_all add: slow_emulator_def init_fields)

lemma store1_fields: "next_ref store1 = 1" "cells store1 0 = []"
  by (simp_all add: store1_def init_def new_list_def store0_def)

lemma cond_emulator_fields:
  "emu_mocks (cond_emulator conds) = [''cond_tool'' \<mapsto> conditional_mock conds]"
  "sequence_positions (cond_emulator conds) = Map.empty"
  "default_latency_ms (emu_config (cond_emulator conds)) = Finite 0"
  by (simp_all add: cond_emulator_def init_fields build_mocks_single config_of_def
      conditional_mock_def)

lemma conditional_mock_fields:
  "behavior (conditional_mock conds) = conditional"
  "conditions (conditional_mock conds) = Some conds"
  "responses (conditional_mock conds) = [prod_response, other_response]"
  "tool_name (conditional_mock conds) = ''cond_tool''"
  "error_rate (conditional_mock conds) = 0"
  by (simp_all add: conditional_mock_def)

lemma conditional_mock_no_fault: "\<not> fault_injected (conditional_mock conds) ev"
  by (simp add: fault_injected_def conditional_mock_def)

lemma rate_mock_fields:
  "tool_name (rate_mock b rate rs) = ''tool''"
  "behavior (rate_mock b rate rs) = b"
  "responses (rate_mock b rate rs) = rs"
  "error_rate (rate_mock b rate rs) = rate"
  "conditions (rate_mock b rate rs) = None"
  by (simp_all add: rate_mock_def)

lemma sequential_mock_fields:
  "tool_name sequential_mock = ''seq_tool''"
  "behavior sequential_mock = sequential"
  "responses sequential_mock = [step_response 1, step_response 2, step_response 3]"
  "error_rate sequential_mock = 0"
  by (simp_all add: sequential_mock_def)

lemma response_latencies:
  "latency_ms prod_response = Finite 0"
  "latency_ms other_response = Finite 0"
  "latency_ms ok_response = Finite 0"
  "latency_ms teapot_response = Finite 0"
  "latency_ms server_error_response = Finite 0"
  "latency_ms (step_response n) = Finite 0"
  "latency_ms default_response = Finite 0"
  "latency_ms (injected_error_response mock) = Finite 0"
  "latency_ms (tool_error_response mock) = Finite 0"
  by (simp_all add: prod_response_def other_response_def ok_response_def teapot_response_def
      server_error_response_def step_response_def default_response_def
      injected_error_response_def tool_error_response_def)

lemma prod_neq_other: "prod_response \<noteq> other_response"
proof
  assume "prod_response = other_response"
  then have "body prod_response ''environment'' = body other_response ''environment''" by simp
  then show False by (simp add: prod_response_def other_response_def)
qed

section \<open>Conditional mocks\<close>

text \<open>
  C1 (as amended). A conditional mock whose conditions mapping is present but empty and
  whose response pool is non-empty matches every input vacuously: for every input
  payload, when no fault is injected, the selection is the first element of the pool,
  and \<open>call\<close> returns it provided the latency it simulates is one the sleep accepts.
\<close>

theorem empty_conditions_returns_first:
  assumes "emu_mocks e name = Some mock" "behavior mock = conditional"
    "conditions mock = Some []" "responses mock \<noteq> []" "\<not> fault_injected mock ev"
  shows "select_response (sequence_positions e) ev mock inp =
           Inr (responses mock ! 0, sequence_positions e) \<and>
         (sleep_accepts e (responses mock ! 0) \<longrightarrow>
            fst (call e s ev name inp) = Inr (responses mock ! 0))"
proof -
  have sel: "select_response (sequence_positions e) ev mock inp =
      Inr (responses mock ! 0, sequence_positions e)"
    using assms select_conditional[of mock "[]" ev "sequence_positions e" inp]
    by (simp add: matched_def)
  show ?thesis using sel call_registered[OF assms(1) sel] by simp
qed

theorem empty_conditions_returns_first_witness:
  "fst (call (cond_emulator []) (cond_store []) env0 ''cond_tool'' Map.empty) = Inr prod_response"
proof -
  have reg: "emu_mocks (cond_emulator []) ''cond_tool'' = Some (conditional_mock [])"
    by (simp add: cond_emulator_fields)
  have ne: "responses (conditional_mock []) \<noteq> []" by (simp add: conditional_mock_fields)
  have ok: "sleep_accepts (cond_emulator []) (responses (conditional_mock []) ! 0)"
    by (rule sleep_accepts_zero) (simp_all add: conditional_mock_fields response_latencies cond_emulator_fields)
  from empty_conditions_returns_first[OF reg conditional_mock_fields(1) conditional_mock_fields(2)
      ne conditional_mock_no_fault, of env0 Map.empty "cond_store []"] ok
  show ?thesis by (simp add: conditional_mock_fields)
qed

text \<open>
  The claim as stated fails: with empty conditions and the pool
  \<open>[prod_response, other_response]\<close> the call does not return the last element.
\<close>

theorem empty_conditions_last_counterexample:
  "fst (call (cond_emulator []) (cond_store []) env0 ''cond_tool'' Map.empty)
     \<noteq> Inr (last (responses (conditional_mock [])))"
proof -
  have reg: "emu_mocks (cond_emulator []) ''cond_tool'' = Some (conditional_mock [])"
    by (simp add: cond_emulator_fields)
  have sel: "select_response (sequence_positions (cond_emulator [])) env0 (conditional_mock []) Map.empty
      = Inr (prod_response, sequence_positions (cond_emulator []))"
    by (simp add: select_conditional[of _ "[]"] conditional_mock_fields conditional_mock_no_fault
        matched_def)
  have ok: "sleep_accepts (cond_emulator []) prod_response"
    by (rule sleep_accepts_zero) (simp_all add: response_latencies cond_emulator_fields)
  have "fst (call (cond_emulator []) (cond_store []) env0 ''cond_tool'' Map.empty) = Inr prod_response"
    using reg sel ok by (rule call_registered)
  then show ?thesis using prod_neq_other by (simp add: conditional_mock_fields)
qed

lemma slow_call_overflow:
  assumes "emu_mocks (slow_emulator ms) name = Some mock"
    "select_response Map.empty ev mock inp = Inr (r, p)" "latency_ms r = Finite 0"
  shows "fst (call (slow_emulator ms) s ev name inp) = Inl OverflowError"
proof -
  have sel: "select_response (sequence_positions (slow_emulator ms)) ev mock inp = Inr (r, p)"
    using assms(2) by (simp add: slow_emulator_fields)
  have "\<not> sleep_accepts (slow_emulator ms) r"
    using assms(3) by (rule sleep_rejects_slow) (simp add: slow_emulator_fields)
  with assms(1) sel show ?thesis by (rule call_overflow)
qed

text \<open>
  C2 (as amended). For a conditional mock with a non-empty conditions mapping none of
  whose values is \<^verbatim>\<open>None\<close>, a non-empty pool and error rate 0, the selection never
  raises: it is the first element of the pool when the input contains every key of the
  conditions with an equal value, and the last element otherwise (a key is missing, a
  value differs, or the input is empty). \<open>call\<close> returns that element provided the
  latency it simulates is one the sleep accepts.
\<close>

theorem conditional_match_selects:
  assumes "emu_mocks e name = Some mock" "behavior mock = conditional"
    "conditions mock = Some conds" "conds \<noteq> []" "\<forall>(k, v) \<in> set conds. v \<noteq> PNone"
    "responses mock \<noteq> []" "error_rate mock = 0"
  shows "select_response (sequence_positions e) ev mock inp =
           Inr (if spec_match conds inp then responses mock ! 0 else last (responses mock),
                sequence_positions e) \<and>
         (sleep_accepts e (if spec_match conds inp then responses mock ! 0 else last (responses mock)) \<longrightarrow>
            fst (call e s ev name inp) =
              Inr (if spec_match conds inp then responses mock ! 0 else last (responses mock)))"
proof -
  have nf: "\<not> fault_injected mock ev" using assms(7) by (rule error_rate_zero_no_fault)
  have m: "matched conds inp = spec_match conds inp" using assms(5) by (rule matched_spec_match)
  have sel: "select_response (sequence_positions e) ev mock inp =
      Inr (if spec_match conds inp then responses mock ! 0 else last (responses mock),
           sequence_positions e)"
    using assms nf m by (simp add: select_conditional)
  show ?thesis using sel call_registered[OF assms(1) sel] by simp
qed

theorem conditional_match_selects_witness:
  "fst (call (cond_emulator [(''env'', PStr ''production'')]) (cond_store [(''env'', PStr ''production'')])
        env0 ''cond_tool'' [''env'' \<mapsto> PStr ''production'']) = Inr prod_response \<and>
   fst (call (cond_emulator [(''env'', PStr ''production'')]) (cond_store [(''env'', PStr ''production'')])
        env0 ''cond_tool'' Map.empty) = Inr other_response"
proof -
  let ?cs = "[(''env'', PStr ''production'')]"
  have reg: "emu_mocks (cond_emulator ?cs) ''cond_tool'' = Some (conditional_mock ?cs)"
    by (simp add: cond_emulator_fields)
  have ne: "?cs \<noteq> []" by simp
  have nn: "\<forall>(k, v) \<in> set ?cs. v \<noteq> PNone" by simp
  have np: "responses (conditional_mock ?cs) \<noteq> []" by (simp add: conditional_mock_fields)
  have ok: "sleep_accepts (cond_emulator ?cs) r" if "r = prod_response \<or> r = other_response" for r
    using that by (auto intro!: sleep_accepts_zero simp: response_latencies cond_emulator_fields)
  note inst = conditional_match_selects[OF reg conditional_mock_fields(1) conditional_mock_fields(2)
      ne nn np conditional_mock_fields(5)]
  have yes: "spec_match ?cs [''env'' \<mapsto> PStr ''production'']" by (simp add: spec_match_def)
  have no: "\<not> spec_match ?cs Map.empty" by (simp add: spec_match_def)
  from inst[of env0 "[''env'' \<mapsto> PStr ''production'']" "cond_store ?cs"] yes ok[of prod_response]
  have a: "fst (call (cond_emulator ?cs) (cond_store ?cs) env0 ''cond_tool''
                 [''env'' \<mapsto> PStr ''production'']) = Inr prod_response"
    by (simp add: conditional_mock_fields)
  from inst[of env0 Map.empty "cond_store ?cs"] no ok[of other_response]
  have b: "fst (call (cond_emulator ?cs) (cond_store ?cs) env0 ''cond_tool'' Map.empty)
      = Inr other_response"
    by (simp add: conditional_mock_fields)
  from a b show ?thesis ..
qed

text \<open>
  The claim as stated fails when the latency to simulate is more than the sleep accepts:
  the matching call raises instead of returning the first element.
\<close>

theorem conditional_call_overflow_counterexample:
  "spec_match [(''env'', PStr ''production'')] [''env'' \<mapsto> PStr ''production''] \<and>
   fst (call (slow_emulator [conditional_mock [(''env'', PStr ''production'')]]) store1 env0
          ''cond_tool'' [''env'' \<mapsto> PStr ''production'']) = Inl OverflowError"
proof -
  let ?m = "conditional_mock [(''env'', PStr ''production'')]"
  have reg: "emu_mocks (slow_emulator [?m]) ''cond_tool'' = Some ?m"
    by (simp add: slow_emulator_fields build_mocks_single conditional_mock_fields)
  have sel: "select_response Map.empty env0 ?m [''env'' \<mapsto> PStr ''production'']
      = Inr (prod_response, Map.empty)"
    by (simp add: select_conditional[of _ "[(''env'', PStr ''production'')]"] conditional_mock_fields
        conditional_mock_no_fault matched_def dict_get_def)
  have "fst (call (slow_emulator [?m]) store1 env0 ''cond_tool'' [''env'' \<mapsto> PStr ''production''])
      = Inl OverflowError"
    using reg sel response_latencies(1) by (rule slow_call_overflow)
  then show ?thesis by (simp add: spec_match_def)
qed

section \<open>Fault injection\<close>

text \<open>
  C4 (as amended). With the random draw an input in \<open>[0, 1)\<close>: for a mock with error
  rate 1 every call takes the fault-injection branch, whatever the behavior and the
  pool; the selection is the injected response, whose status code is 500, and \<open>call\<close>
  returns it provided the latency it simulates is one the sleep accepts. For a mock with
  error rate 0 no call takes that branch; a response with status code 500 then comes
  from the \<open>error\<close> policy or is one of the responses configured in the pool.
\<close>

theorem error_rate_boundary:
  assumes "emu_mocks e name = Some mock"
  shows "(error_rate mock = 1 \<and> 0 \<le> draw ev \<and> draw ev < 1 \<longrightarrow>
           fault_injected mock ev \<and>
           select_response (sequence_positions e) ev mock inp =
             Inr (injected_error_response mock, sequence_positions e) \<and>
           status_code (injected_error_response mock) = 500 \<and>
           (sleep_accepts e (injected_error_response mock) \<longrightarrow>
              fst (call e s ev name inp) = Inr (injected_error_response mock))) \<and>
         (error_rate mock = 0 \<longrightarrow>
           \<not> fault_injected mock ev \<and>
           (\<exists>r p. select_response (sequence_positions e) ev mock inp = Inr (r, p) \<and>
              (if behavior mock = error then r = tool_error_response mock
               else if responses mock = [] then r = default_response
               else r \<in> set (responses mock)) \<and>
              (status_code r = 500 \<longrightarrow> behavior mock = error \<or> r \<in> set (responses mock)) \<and>
              (sleep_accepts e r \<longrightarrow> fst (call e s ev name inp) = Inr r)))"
proof (intro conjI impI)
  assume h: "error_rate mock = 1 \<and> 0 \<le> draw ev \<and> draw ev < 1"
  then show fi: "fault_injected mock ev" by (simp add: fault_injected_def)
  show sel: "select_response (sequence_positions e) ev mock inp =
      Inr (injected_error_response mock, sequence_positions e)"
    using fi by (rule select_injected)
  show "status_code (injected_error_response mock) = 500"
    by (simp add: injected_error_response_def)
  assume "sleep_accepts e (injected_error_response mock)"
  with assms sel show "fst (call e s ev name inp) = Inr (injected_error_response mock)"
    by (rule call_registered)
next
  assume z: "error_rate mock = 0"
  then show nf: "\<not> fault_injected mock ev" by (rule error_rate_zero_no_fault)
  have "\<exists>r p. select_response (sequence_positions e) ev mock inp = Inr (r, p) \<and>
              (if behavior mock = error then r = tool_error_response mock
               else if responses mock = [] then r = default_response
               else r \<in> set (responses mock))"
  proof (cases "behavior mock = error")
    case True
    then show ?thesis using select_error_policy[OF nf True] by simp
  next
    case ne: False
    show ?thesis
    proof (cases "responses mock = []")
      case True
      then show ?thesis using ne select_empty_pool[OF nf ne True] by simp
    next
      case False
      then show ?thesis using ne select_from_pool[OF nf ne False] by simp
    qed
  qed
  then obtain r p where sel: "select_response (sequence_positions e) ev mock inp = Inr (r, p)"
    and shape: "if behavior mock = error then r = tool_error_response mock
               else if responses mock = [] then r = default_response
               else r \<in> set (responses mock)"
    by blast
  have five: "status_code r = 500 \<longrightarrow> behavior mock = error \<or> r \<in> set (responses mock)"
    using shape by (auto simp: default_response_def split: if_splits)
  have ret: "sleep_accepts e r \<longrightarrow> fst (call e s ev name inp) = Inr r"
    using call_registered[OF assms sel] by simp
  from sel shape five ret
  show "\<exists>r p. select_response (sequence_positions e) ev mock inp = Inr (r, p) \<and>
              (if behavior mock = error then r = tool_error_response mock
               else if responses mock = [] then r = default_response
               else r \<in> set (responses mock)) \<and>
              (status_code r = 500 \<longrightarrow> behavior mock = error \<or> r \<in> set (responses mock)) \<and>
              (sleep_accepts e r \<longrightarrow> fst (call e s ev name inp) = Inr r)"
    by blast
qed

theorem error_rate_boundary_witness:
  "fst (call (emulator_of [rate_mock static 1 [ok_response]] False) store1 env0 ''tool'' Map.empty)
      = Inr (injected_error_response (rate_mock static 1 [ok_response])) \<and>
   \<not> fault_injected (rate_mock static 0 [ok_response]) env0"
proof -
  have reg: "emu_mocks (emulator_of [rate_mock b rate rs] False) ''tool'' = Some (rate_mock b rate rs)"
    for b rate rs
    by (simp add: emulator_of_fields build_mocks_single rate_mock_fields)
  have one: "error_rate (rate_mock static 1 [ok_response]) = 1 \<and> 0 \<le> draw env0 \<and> draw env0 < 1"
    by (simp add: rate_mock_fields env0_def)
  have ok: "sleep_accepts (emulator_of [rate_mock static 1 [ok_response]] False)
      (injected_error_response (rate_mock static 1 [ok_response]))"
    by (rule sleep_accepts_zero) (simp_all add: response_latencies emulator_of_fields)
  from error_rate_boundary[OF reg, of static 1 "[ok_response]" env0 Map.empty store1,
      THEN conjunct1, rule_format, OF one] ok
  have a: "fst (call (emulator_of [rate_mock static 1 [ok_response]] False) store1 env0 ''tool'' Map.empty)
      = Inr (injected_error_response (rate_mock static 1 [ok_response]))"
    by blast
  have zero: "error_rate (rate_mock static 0 [ok_response]) = 0" by (simp add: rate_mock_fields)
  from error_rate_boundary[OF reg, of static 0 "[ok_response]" env0 Map.empty store1,
      THEN conjunct2, rule_format, OF zero]
  have b: "\<not> fault_injected (rate_mock static 0 [ok_response]) env0" by blast
  from a b show ?thesis ..
qed

text \<open>
  The claim as stated fails twice. At error rate 0 a static mock whose pool holds a
  response with status code 500 returns it, although its behavior is not \<open>error\<close>. At
  error rate 1, when the latency to simulate is more than the sleep accepts, the call
  raises instead of returning a response.
\<close>

theorem error_rate_boundary_counterexample:
  "fst (call (emulator_of [rate_mock static 0 [server_error_response]] False) store1 env0
          ''tool'' Map.empty) = Inr server_error_response \<and>
   status_code server_error_response = 500 \<and>
   behavior (rate_mock static 0 [server_error_response]) \<noteq> error \<and>
   fst (call (slow_emulator [rate_mock static 1 [ok_response]]) store1 env0 ''tool'' Map.empty)
     = Inl OverflowError"
proof -
  let ?m = "rate_mock static 0 [server_error_response]"
  have reg: "emu_mocks (emulator_of [?m] False) ''tool'' = Some ?m"
    by (simp add: emulator_of_fields build_mocks_single rate_mock_fields)
  have sel: "select_response (sequence_positions (emulator_of [?m] False)) env0 ?m Map.empty
      = Inr (server_error_response, sequence_positions (emulator_of [?m] False))"
    by (simp add: select_response_def fault_injected_def rate_mock_fields py_index_first)
  have ok: "sleep_accepts (emulator_of [?m] False) server_error_response"
    by (rule sleep_accepts_zero) (simp_all add: response_latencies emulator_of_fields)
  have a: "fst (call (emulator_of [?m] False) store1 env0 ''tool'' Map.empty)
      = Inr server_error_response"
    using reg sel ok by (rule call_registered)
  let ?m1 = "rate_mock static 1 [ok_response]"
  have reg1: "emu_mocks (slow_emulator [?m1]) ''tool'' = Some ?m1"
    by (simp add: slow_emulator_fields build_mocks_single rate_mock_fields)
  have sel1: "select_response Map.empty env0 ?m1 Map.empty
      = Inr (injected_error_response ?m1, Map.empty)"
    by (simp add: select_response_def fault_injected_def rate_mock_fields env0_def)
  have b: "fst (call (slow_emulator [?m1]) store1 env0 ''tool'' Map.empty) = Inl OverflowError"
    using reg1 sel1 response_latencies(8) by (rule slow_call_overflow)
  from a b show ?thesis
    by (simp add: server_error_response_def rate_mock_fields)
qed

section \<open>Lookup failure\<close>




section \<open>Order of the selection steps\<close>

text \<open>
  C6. The selection engine tries its steps in order. When the fault is injected the
  selection is the injected response, whatever the behavior. When no fault is injected
  (in particular at error rate 0), the selection for a mock with behavior \<open>error\<close> is the
  synthetic 500 response even when its pool is empty, and the selection for a mock with
  any other behavior and an empty pool is the default response, with status code 200
  and an empty body. The selection is what \<open>call\<close> returns when the sleep accepts the
  latency.
\<close>

theorem selection_step_order:
  "(fault_injected mock ev \<longrightarrow>
      select_response positions ev mock inp = Inr (injected_error_response mock, positions)) \<and>
   (error_rate mock = 0 \<longrightarrow> \<not> fault_injected mock ev) \<and>
   (\<not> fault_injected mock ev \<and> behavior mock = error \<longrightarrow>
      select_response positions ev mock inp = Inr (tool_error_response mock, positions) \<and>
      status_code (tool_error_response mock) = 500) \<and>
   (\<not> fault_injected mock ev \<and> behavior mock \<noteq> error \<and> responses mock = [] \<longrightarrow>
      select_response positions ev mock inp = Inr (default_response, positions) \<and>
      status_code default_response = 200 \<and> body default_response = Map.empty) \<and>
   (emu_mocks e name = Some mock \<and>
    select_response (sequence_positions e) ev mock inp = Inr (r, p) \<and> sleep_accepts e r \<longrightarrow>
      fst (call e s ev name inp) = Inr r)"
proof (intro conjI impI)
  assume "fault_injected mock ev"
  then show "select_response positions ev mock inp = Inr (injected_error_response mock, positions)"
    by (rule select_injected)
next
  assume "error_rate mock = 0"
  then show "\<not> fault_injected mock ev" by (rule error_rate_zero_no_fault)
next
  assume "\<not> fault_injected mock ev \<and> behavior mock = error"
  then show "select_response positions ev mock inp = Inr (tool_error_response mock, positions)"
    by (simp add: select_error_policy)
  show "status_code (tool_error_response mock) = 500" by (simp add: tool_error_response_def)
next
  assume "\<not> fault_injected mock ev \<and> behavior mock \<noteq> error \<and> responses mock = []"
  then show "select_response positions ev mock inp = Inr (default_response, positions)"
    by (simp add: select_empty_pool)
  show "status_code default_response = 200" by (simp add: default_response_def)
  show "body default_response = Map.empty" by (simp add: default_response_def)
next
  assume "emu_mocks e name = Some mock \<and>
    select_response (sequence_positions e) ev mock inp = Inr (r, p) \<and> sleep_accepts e r"
  then show "fst (call e s ev name inp) = Inr r" by (blast intro: call_registered)
qed

theorem selection_step_order_witness:
  "select_response Map.empty env0 (rate_mock error 0 []) Map.empty
      = Inr (tool_error_response (rate_mock error 0 []), Map.empty) \<and>
   select_response Map.empty env0 (rate_mock sequential 0 []) Map.empty
      = Inr (default_response, Map.empty) \<and>
   select_response Map.empty env0 (rate_mock error 1 []) Map.empty
      = Inr (injected_error_response (rate_mock error 1 []), Map.empty) \<and>
   fst (call (emulator_of [rate_mock error 0 []] False) store1 env0 ''tool'' Map.empty)
      = Inr (tool_error_response (rate_mock error 0 []))"
proof -
  have nf: "\<not> fault_injected (rate_mock b 0 []) env0" for b
    by (simp add: fault_injected_def rate_mock_fields)
  have fi: "fault_injected (rate_mock error 1 []) env0"
    by (simp add: fault_injected_def rate_mock_fields env0_def)
  note t1 = selection_step_order[of "rate_mock error 0 []" env0 Map.empty Map.empty
      "emulator_of [rate_mock error 0 []] False" "''tool''"
      "tool_error_response (rate_mock error 0 [])" Map.empty store1]
  from t1[THEN conjunct2, THEN conjunct2, THEN conjunct1] nf[of error]
  have a: "select_response Map.empty env0 (rate_mock error 0 []) Map.empty
      = Inr (tool_error_response (rate_mock error 0 []), Map.empty)"
    by (simp add: rate_mock_fields)
  from selection_step_order[of "rate_mock sequential 0 []" env0 Map.empty Map.empty,
      THEN conjunct2, THEN conjunct2, THEN conjunct2, THEN conjunct1] nf[of sequential]
  have b: "select_response Map.empty env0 (rate_mock sequential 0 []) Map.empty
      = Inr (default_response, Map.empty)"
    by (simp add: rate_mock_fields)
  from selection_step_order[of "rate_mock error 1 []" env0 Map.empty Map.empty, THEN conjunct1] fi
  have c: "select_response Map.empty env0 (rate_mock error 1 []) Map.empty
      = Inr (injected_error_response (rate_mock error 1 []), Map.empty)"
    by simp
  have reg: "emu_mocks (emulator_of [rate_mock error 0 []] False) ''tool'' = Some (rate_mock error 0 [])"
    by (simp add: emulator_of_fields build_mocks_single rate_mock_fields)
  have ok: "sleep_accepts (emulator_of [rate_mock error 0 []] False)
      (tool_error_response (rate_mock error 0 []))"
    by (rule sleep_accepts_zero) (simp_all add: response_latencies emulator_of_fields)
  from t1[THEN conjunct2, THEN conjunct2, THEN conjunct2, THEN conjunct2] reg a ok
  have d: "fst (call (emulator_of [rate_mock error 0 []] False) store1 env0 ''tool'' Map.empty)
      = Inr (tool_error_response (rate_mock error 0 []))"
    by (simp add: emulator_of_fields)
  from a b c d show ?thesis by simp
qed

subsection \<open>The registry invariant\<close>

lemma fold_mocks_ok:
  "(\<forall>n m. reg n = Some m \<longrightarrow> tool_name m = n) \<Longrightarrow>
   fold (\<lambda>m reg. reg(tool_name m \<mapsto> m)) ms reg n = Some m \<Longrightarrow> tool_name m = n"
proof (induction ms arbitrary: reg)
  case Nil
  then show ?case by simp
next
  case (Cons a ms)
  have "\<forall>n m. (reg(tool_name a \<mapsto> a)) n = Some m \<longrightarrow> tool_name m = n"
    using Cons.prems(1) by auto
  moreover have "fold (\<lambda>m reg. reg(tool_name m \<mapsto> m)) ms (reg(tool_name a \<mapsto> a)) n = Some m"
    using Cons.prems(2) by (simp only: fold_simps o_apply)
  ultimately show ?case by (rule Cons.IH)
qed

lemma registry_ok_init: "registry_ok (fst (init cfg s))"
proof -
  have "tool_name m = n" if "build_mocks (mocks cfg) n = Some m" for n m
    using that fold_mocks_ok[of Map.empty "mocks cfg" n m] by (simp add: build_mocks_def)
  then show ?thesis by (simp add: registry_ok_def init_fields)
qed


lemma registry_ok_add_mock: "registry_ok e \<Longrightarrow> registry_ok (add_mock mock e)"
  by (simp add: registry_ok_def add_mock_def)

lemma registry_ok_reset: "registry_ok e \<Longrightarrow> registry_ok (fst (reset e s))"
  by (simp add: registry_ok_def reset_def)

lemma registry_ok_emulator_of: "registry_ok (emulator_of ms rec)"
  by (simp add: emulator_of_def registry_ok_init)

subsection \<open>The sequential cursor\<close>

lemma call_positions_other:
  assumes "registry_ok e" "other \<noteq> name"
  shows "sequence_positions (fst (snd (call e s ev name inp))) other = sequence_positions e other"
proof (cases "emu_mocks e name")
  case None
  then show ?thesis by (simp add: call_unregistered)
next
  case (Some mock)
  with assms(1) have tn: "tool_name mock = name" by (simp add: registry_ok_def)
  from select_response_total obtain r p
    where sel: "select_response (sequence_positions e) ev mock inp = Inr (r, p)" by blast
  from select_response_positions[OF sel] tn assms(2)
  have "p other = sequence_positions e other" by auto
  with call_positions[OF Some sel] show ?thesis by simp
qed

lemma call_no_cursor_change:
  assumes "emu_mocks e name = Some mock"
    "fault_injected mock ev \<or> behavior mock \<noteq> sequential \<or> responses mock = []"
  shows "sequence_positions (fst (snd (call e s ev name inp))) = sequence_positions e"
proof -
  from select_response_total obtain r p
    where sel: "select_response (sequence_positions e) ev mock inp = Inr (r, p)" by blast
  from select_no_cursor_change[OF assms(2) sel] have "p = sequence_positions e" .
  with call_positions[OF assms(1) sel] show ?thesis by simp
qed


lemma run_calls_frame:
  "run_calls cs e s = (rs, e', s') \<Longrightarrow>
   emu_mocks e' = emu_mocks e \<and> emu_config e' = emu_config e \<and>
   recorded_calls e' = recorded_calls e \<and> next_ref s' = next_ref s \<and> length rs = length cs"
proof (induction cs arbitrary: e s rs e' s')
  case Nil
  then show ?case by simp
next
  case (Cons c cs)
  obtain ev n inp where c: "c = (ev, n, inp)" by (cases c)
  obtain res e1 s1 where st: "call e s ev n inp = (res, e1, s1)" by (cases "call e s ev n inp")
  obtain rs1 where run: "run_calls cs e1 s1 = (rs1, e', s')" and rs: "rs = res # rs1"
    using Cons.prems c st by (auto split: prod.splits)
  have e1: "e1 = fst (snd (call e s ev n inp))" and s1: "s1 = snd (snd (call e s ev n inp))"
    using st by simp_all
  from Cons.IH[OF run] e1 s1 rs show ?case by (simp add: call_frame)
qed


section \<open>Sequential mocks\<close>




section \<open>Cursor frame\<close>

text \<open>
  C10. A call on which the fault is injected, or on a mock with behavior \<open>error\<close>,
  leaves the cursor map unchanged, so the next call to that tool returns what it would
  have returned had the first call not happened. A call to one tool never changes the
  cursor of another tool.
\<close>

theorem injected_call_keeps_cursor:
  assumes "emu_mocks e name = Some mock"
  shows "(fault_injected mock ev \<or> behavior mock = error \<longrightarrow>
            sequence_positions (fst (snd (call e s ev name inp))) = sequence_positions e \<and>
            fst (call (fst (snd (call e s ev name inp))) (snd (snd (call e s ev name inp))) ev' name inp')
              = fst (call e s ev' name inp')) \<and>
         (registry_ok e \<longrightarrow>
            (\<forall>other. other \<noteq> name \<longrightarrow>
               sequence_positions (fst (snd (call e s ev name inp))) other = sequence_positions e other))"
proof (intro conjI impI allI)
  assume h: "fault_injected mock ev \<or> behavior mock = error"
  then have "fault_injected mock ev \<or> behavior mock \<noteq> sequential \<or> responses mock = []" by auto
  with assms show same: "sequence_positions (fst (snd (call e s ev name inp))) = sequence_positions e"
    by (rule call_no_cursor_change)
  show "fst (call (fst (snd (call e s ev name inp))) (snd (snd (call e s ev name inp))) ev' name inp')
          = fst (call e s ev' name inp')"
    by (rule call_fst_cong) (simp_all add: call_frame same)
next
  fix other assume "registry_ok e" "other \<noteq> name"
  then show "sequence_positions (fst (snd (call e s ev name inp))) other = sequence_positions e other"
    by (rule call_positions_other)
qed

theorem injected_call_keeps_cursor_witness:
  "sequence_positions (fst (snd (call (emulator_of [rate_mock sequential 1 [ok_response]] False) store1
       env0 ''tool'' Map.empty))) = Map.empty \<and>
   sequence_positions (fst (snd (call (emulator_of [rate_mock sequential 1 [ok_response]] False) store1
       env0 ''tool'' Map.empty))) ''other'' = None"
proof -
  let ?e = "emulator_of [rate_mock sequential 1 [ok_response]] False"
  have reg: "emu_mocks ?e ''tool'' = Some (rate_mock sequential 1 [ok_response])"
    by (simp add: emulator_of_fields build_mocks_single rate_mock_fields)
  have fi: "fault_injected (rate_mock sequential 1 [ok_response]) env0"
    by (simp add: fault_injected_def rate_mock_fields env0_def)
  have neq: "''other'' \<noteq> ''tool''" by simp
  from injected_call_keeps_cursor[OF reg, of env0 store1 Map.empty env0 Map.empty] fi
    registry_ok_emulator_of[of "[rate_mock sequential 1 [ok_response]]" False] neq
  show ?thesis by (simp add: emulator_of_fields)
qed

subsection \<open>Reset, construction and registration\<close>

lemma reset_fields:
  "sequence_positions (fst (reset e s)) = Map.empty"
  "emu_mocks (fst (reset e s)) = emu_mocks e"
  "emu_config (fst (reset e s)) = emu_config e"
  "recorded_calls (fst (reset e s)) = recorded_calls e"
  "log_of (fst (reset e s)) (snd (reset e s)) = []"
  by (simp_all add: reset_def log_of_def list_write_def)

lemma sleep_accepts_reset: "sleep_accepts (fst (reset e s)) r = sleep_accepts e r"
  by (simp add: sleep_accepts_def call_latency_def reset_fields)

lemma fold_mocks_last:
  "fold (\<lambda>m reg. reg(tool_name m \<mapsto> m)) ms reg n =
     (if filter (\<lambda>m. tool_name m = n) ms = [] then reg n
      else Some (last (filter (\<lambda>m. tool_name m = n) ms)))"
proof (induction ms arbitrary: reg)
  case Nil
  then show ?case by simp
next
  case (Cons a ms)
  have "fold (\<lambda>m reg. reg(tool_name m \<mapsto> m)) (a # ms) reg n =
        fold (\<lambda>m reg. reg(tool_name m \<mapsto> m)) ms (reg(tool_name a \<mapsto> a)) n"
    by (simp only: fold_simps o_apply)
  also have "\<dots> = (if filter (\<lambda>m. tool_name m = n) ms = [] then (reg(tool_name a \<mapsto> a)) n
      else Some (last (filter (\<lambda>m. tool_name m = n) ms)))"
    by (rule Cons.IH)
  also have "\<dots> = (if filter (\<lambda>m. tool_name m = n) (a # ms) = [] then reg n
      else Some (last (filter (\<lambda>m. tool_name m = n) (a # ms))))"
    by simp
  finally show ?case .
qed

lemma build_mocks_last:
  "build_mocks ms n =
     (if filter (\<lambda>m. tool_name m = n) ms = [] then None
      else Some (last (filter (\<lambda>m. tool_name m = n) ms)))"
  by (simp add: build_mocks_def fold_mocks_last)

lemma add_mock_fields:
  "emu_mocks (add_mock mock e) = (emu_mocks e)(tool_name mock \<mapsto> mock)"
  "sequence_positions (add_mock mock e) = sequence_positions e"
  "emu_config (add_mock mock e) = emu_config e"
  "recorded_calls (add_mock mock e) = recorded_calls e"
  "log_of (add_mock mock e) s = log_of e s"
  by (simp_all add: add_mock_def log_of_def)

lemma sleep_accepts_add_mock: "sleep_accepts (add_mock mock e) r = sleep_accepts e r"
  by (simp add: sleep_accepts_def call_latency_def add_mock_fields)

section \<open>Reset and registration\<close>

text \<open>
  C8 (as amended). After \<open>reset\<close> the call log is empty and the cursor map is empty,
  while the mock registry and the configuration are unchanged. The next call to a
  sequential mock with a non-empty pool on which no fault is injected selects
  \<open>responses ! 0\<close>, and returns it provided the latency it simulates is one the sleep
  accepts. Every call has the outcome it has on an emulator freshly constructed with the
  same registry and the same default latency.
\<close>

theorem reset_semantics:
  "log_of (fst (reset e s)) (snd (reset e s)) = [] \<and>
   sequence_positions (fst (reset e s)) = Map.empty \<and>
   emu_mocks (fst (reset e s)) = emu_mocks e \<and>
   emu_config (fst (reset e s)) = emu_config e \<and>
   (\<forall>name mock ev inp.
      emu_mocks e name = Some mock \<and> behavior mock = sequential \<and> responses mock \<noteq> [] \<and>
      \<not> fault_injected mock ev \<longrightarrow>
      select_response (sequence_positions (fst (reset e s))) ev mock inp =
        Inr (responses mock ! 0, [tool_name mock \<mapsto> 1]) \<and>
      (sleep_accepts e (responses mock ! 0) \<longrightarrow>
         fst (call (fst (reset e s)) (snd (reset e s)) ev name inp) = Inr (responses mock ! 0))) \<and>
   (\<forall>(cfg :: EmulatorConfig) s0 ev name inp.
      build_mocks (mocks cfg) = emu_mocks e \<and>
      default_latency_ms cfg = default_latency_ms (emu_config e) \<longrightarrow>
      fst (call (fst (reset e s)) (snd (reset e s)) ev name inp) =
      fst (call (fst (init cfg s0)) (snd (init cfg s0)) ev name inp))"
proof (intro conjI allI impI)
  show "log_of (fst (reset e s)) (snd (reset e s)) = []" by (rule reset_fields)
  show "sequence_positions (fst (reset e s)) = Map.empty" by (rule reset_fields)
  show "emu_mocks (fst (reset e s)) = emu_mocks e" by (rule reset_fields)
  show "emu_config (fst (reset e s)) = emu_config e" by (rule reset_fields)
next
  fix name mock ev inp
  assume h: "emu_mocks e name = Some mock \<and> behavior mock = sequential \<and> responses mock \<noteq> [] \<and>
      \<not> fault_injected mock ev"
  then have reg: "emu_mocks (fst (reset e s)) name = Some mock" by (simp add: reset_fields)
  show sel: "select_response (sequence_positions (fst (reset e s))) ev mock inp =
      Inr (responses mock ! 0, [tool_name mock \<mapsto> 1])"
    using h select_sequential[of mock ev Map.empty inp] by (simp add: reset_fields)
  assume "sleep_accepts e (responses mock ! 0)"
  then have "sleep_accepts (fst (reset e s)) (responses mock ! 0)"
    by (simp add: sleep_accepts_reset)
  with reg sel show "fst (call (fst (reset e s)) (snd (reset e s)) ev name inp) = Inr (responses mock ! 0)"
    by (rule call_registered)
next
  fix cfg :: EmulatorConfig and s0 ev name inp
  assume "build_mocks (mocks cfg) = emu_mocks e \<and>
      default_latency_ms cfg = default_latency_ms (emu_config e)"
  then show "fst (call (fst (reset e s)) (snd (reset e s)) ev name inp) =
      fst (call (fst (init cfg s0)) (snd (init cfg s0)) ev name inp)"
    by (intro call_fst_cong) (simp_all add: reset_fields init_fields)
qed

theorem reset_semantics_witness:
  "fst (call (fst (reset (fst (snd (call (emulator_of [sequential_mock] True) store1 env0 ''seq_tool'' Map.empty)))
                         (snd (snd (call (emulator_of [sequential_mock] True) store1 env0 ''seq_tool'' Map.empty)))))
             (snd (reset (fst (snd (call (emulator_of [sequential_mock] True) store1 env0 ''seq_tool'' Map.empty)))
                         (snd (snd (call (emulator_of [sequential_mock] True) store1 env0 ''seq_tool'' Map.empty)))))
             env0 ''seq_tool'' Map.empty) = Inr (step_response 1) \<and>
   fst (call (fst (reset (fst (snd (call (emulator_of [sequential_mock] True) store1 env0 ''seq_tool'' Map.empty)))
                         (snd (snd (call (emulator_of [sequential_mock] True) store1 env0 ''seq_tool'' Map.empty)))))
             (snd (reset (fst (snd (call (emulator_of [sequential_mock] True) store1 env0 ''seq_tool'' Map.empty)))
                         (snd (snd (call (emulator_of [sequential_mock] True) store1 env0 ''seq_tool'' Map.empty)))))
             env0 ''seq_tool'' Map.empty)
     = fst (call (fst (init (config_of [sequential_mock] True) store0))
                 (snd (init (config_of [sequential_mock] True) store0)) env0 ''seq_tool'' Map.empty)"
proof -
  let ?e = "fst (snd (call (emulator_of [sequential_mock] True) store1 env0 ''seq_tool'' Map.empty))"
  let ?s = "snd (snd (call (emulator_of [sequential_mock] True) store1 env0 ''seq_tool'' Map.empty))"
  have reg: "emu_mocks ?e ''seq_tool'' = Some sequential_mock"
    by (simp add: call_frame emulator_of_fields build_mocks_single sequential_mock_fields)
  have nf: "\<not> fault_injected sequential_mock env0"
    by (simp add: fault_injected_def sequential_mock_fields)
  have ne: "responses sequential_mock \<noteq> []" by (simp add: sequential_mock_fields)
  have ok: "sleep_accepts ?e (responses sequential_mock ! 0)"
    by (rule sleep_accepts_zero)
       (simp_all add: call_frame sequential_mock_fields response_latencies emulator_of_fields)
  have same: "build_mocks (mocks (config_of [sequential_mock] True)) = emu_mocks ?e \<and>
      default_latency_ms (config_of [sequential_mock] True) = default_latency_ms (emu_config ?e)"
    by (simp add: call_frame emulator_of_fields)
  note r = reset_semantics[of ?e ?s]
  from r[THEN conjunct2, THEN conjunct2, THEN conjunct2, THEN conjunct2, THEN conjunct1,
      rule_format, of "''seq_tool''" sequential_mock env0 Map.empty] reg nf ne ok
  have a: "fst (call (fst (reset ?e ?s)) (snd (reset ?e ?s)) env0 ''seq_tool'' Map.empty)
      = Inr (step_response 1)"
    by (simp add: sequential_mock_fields)
  from r[THEN conjunct2, THEN conjunct2, THEN conjunct2, THEN conjunct2, THEN conjunct2,
      rule_format, of "config_of [sequential_mock] True" env0 "''seq_tool''" Map.empty store0,
      OF same]
  have b: "fst (call (fst (reset ?e ?s)) (snd (reset ?e ?s)) env0 ''seq_tool'' Map.empty)
     = fst (call (fst (init (config_of [sequential_mock] True) store0))
                 (snd (init (config_of [sequential_mock] True) store0)) env0 ''seq_tool'' Map.empty)" .
  from a b show ?thesis ..
qed

text \<open>
  The claim as stated fails twice. After a reset, the call to a sequential mock with
  error rate 1 returns the injected response, not \<open>responses ! 0\<close>; and when the latency
  to simulate is more than the sleep accepts, the call raises.
\<close>

theorem reset_next_call_counterexample:
  "fst (call (fst (reset (emulator_of [rate_mock sequential 1 [ok_response]] False) store1))
             (snd (reset (emulator_of [rate_mock sequential 1 [ok_response]] False) store1))
             env0 ''tool'' Map.empty)
     = Inr (injected_error_response (rate_mock sequential 1 [ok_response])) \<and>
   injected_error_response (rate_mock sequential 1 [ok_response])
     \<noteq> responses (rate_mock sequential 1 [ok_response]) ! 0 \<and>
   fst (call (fst (reset (slow_emulator [sequential_mock]) store1))
             (snd (reset (slow_emulator [sequential_mock]) store1))
             env0 ''seq_tool'' Map.empty) = Inl OverflowError"
proof -
  let ?m = "rate_mock sequential 1 [ok_response]"
  let ?e = "emulator_of [?m] False"
  have reg: "emu_mocks (fst (reset ?e store1)) ''tool'' = Some ?m"
    by (simp add: reset_fields emulator_of_fields build_mocks_single rate_mock_fields)
  have fi: "fault_injected ?m env0" by (simp add: fault_injected_def rate_mock_fields env0_def)
  have sel: "select_response (sequence_positions (fst (reset ?e store1))) env0 ?m Map.empty
      = Inr (injected_error_response ?m, sequence_positions (fst (reset ?e store1)))"
    using fi by (rule select_injected)
  have ok: "sleep_accepts (fst (reset ?e store1)) (injected_error_response ?m)"
    by (rule sleep_accepts_zero) (simp_all add: reset_fields response_latencies emulator_of_fields)
  have a: "fst (call (fst (reset ?e store1)) (snd (reset ?e store1)) env0 ''tool'' Map.empty)
      = Inr (injected_error_response ?m)"
    using reg sel ok by (rule call_registered)
  have b: "injected_error_response ?m \<noteq> responses ?m ! 0"
  proof
    assume "injected_error_response ?m = responses ?m ! 0"
    then have "status_code (injected_error_response ?m) = status_code (responses ?m ! 0)" by simp
    then show False by (simp add: injected_error_response_def rate_mock_fields ok_response_def)
  qed
  let ?f = "slow_emulator [sequential_mock]"
  have reg2: "emu_mocks (fst (reset ?f store1)) ''seq_tool'' = Some sequential_mock"
    by (simp add: reset_fields slow_emulator_fields build_mocks_single sequential_mock_fields)
  have sel2: "select_response (sequence_positions (fst (reset ?f store1))) env0 sequential_mock Map.empty
      = Inr (step_response 1, [''seq_tool'' \<mapsto> 1])"
    using select_sequential[of sequential_mock env0 Map.empty Map.empty]
    by (simp add: reset_fields sequential_mock_fields fault_injected_def)
  have no: "\<not> sleep_accepts (fst (reset ?f store1)) (step_response 1)"
    by (rule sleep_rejects_slow) (simp_all add: reset_fields response_latencies slow_emulator_fields)
  have c: "fst (call (fst (reset ?f store1)) (snd (reset ?f store1)) env0 ''seq_tool'' Map.empty)
      = Inl OverflowError"
    using reg2 sel2 no by (rule call_overflow)
  from a b c show ?thesis by blast
qed

text \<open>
  C9. \<open>add_mock\<close> stores the mock under its own tool name, replacing whatever was
  stored there, and changes nothing else: the cursor map, the configuration and the
  call log stay as they were. The very next call for that name is answered from the new
  mock, with the cursor the tool already had: it leaves the cursor map the selection
  from the new mock gives, and returns the selected response when the sleep accepts the
  latency. At construction the registry holds, for each name, the last mock of the
  configuration with that name.
\<close>

theorem add_mock_overwrites:
  "emu_mocks (add_mock mock e) = (emu_mocks e)(tool_name mock \<mapsto> mock) \<and>
   sequence_positions (add_mock mock e) = sequence_positions e \<and>
   emu_config (add_mock mock e) = emu_config e \<and>
   recorded_calls (add_mock mock e) = recorded_calls e \<and>
   log_of (add_mock mock e) s = log_of e s \<and>
   (\<forall>r p. select_response (sequence_positions e) ev mock inp = Inr (r, p) \<longrightarrow>
      sequence_positions (fst (snd (call (add_mock mock e) s ev (tool_name mock) inp))) = p \<and>
      (sleep_accepts e r \<longrightarrow> fst (call (add_mock mock e) s ev (tool_name mock) inp) = Inr r)) \<and>
   emu_mocks (fst (init cfg s0)) n =
     (if filter (\<lambda>m. tool_name m = n) (mocks cfg) = [] then None
      else Some (last (filter (\<lambda>m. tool_name m = n) (mocks cfg))))"
proof (intro conjI allI impI)
  show "emu_mocks (add_mock mock e) = (emu_mocks e)(tool_name mock \<mapsto> mock)"
    by (rule add_mock_fields)
  show "sequence_positions (add_mock mock e) = sequence_positions e" by (rule add_mock_fields)
  show "emu_config (add_mock mock e) = emu_config e" by (rule add_mock_fields)
  show "recorded_calls (add_mock mock e) = recorded_calls e" by (rule add_mock_fields)
  show "log_of (add_mock mock e) s = log_of e s" by (rule add_mock_fields)
  show "emu_mocks (fst (init cfg s0)) n =
     (if filter (\<lambda>m. tool_name m = n) (mocks cfg) = [] then None
      else Some (last (filter (\<lambda>m. tool_name m = n) (mocks cfg))))"
    by (simp add: init_fields build_mocks_last)
next
  fix r p
  assume "select_response (sequence_positions e) ev mock inp = Inr (r, p)"
  then have sel: "select_response (sequence_positions (add_mock mock e)) ev mock inp = Inr (r, p)"
    by (simp add: add_mock_fields)
  have reg: "emu_mocks (add_mock mock e) (tool_name mock) = Some mock"
    by (simp add: add_mock_fields)
  show "sequence_positions (fst (snd (call (add_mock mock e) s ev (tool_name mock) inp))) = p"
    using reg sel by (rule call_positions)
  assume "sleep_accepts e r"
  then have "sleep_accepts (add_mock mock e) r" by (simp add: sleep_accepts_add_mock)
  with reg sel show "fst (call (add_mock mock e) s ev (tool_name mock) inp) = Inr r"
    by (rule call_registered)
qed

theorem add_mock_overwrites_witness:
  "fst (call (add_mock (rate_mock static 0 [teapot_response])
                (emulator_of [rate_mock static 0 [ok_response]] True)) store1 env0 ''tool'' Map.empty)
     = Inr teapot_response \<and>
   emu_mocks (fst (init (config_of [rate_mock static 0 [ok_response],
                                     rate_mock static 0 [teapot_response]] True) store0)) ''tool''
     = Some (rate_mock static 0 [teapot_response])"
proof -
  let ?new = "rate_mock static 0 [teapot_response]"
  let ?e = "emulator_of [rate_mock static 0 [ok_response]] True"
  have sel: "select_response (sequence_positions ?e) env0 ?new Map.empty
      = Inr (teapot_response, Map.empty)"
    by (simp add: select_response_def fault_injected_def rate_mock_fields py_index_first
        emulator_of_fields)
  have ok: "sleep_accepts ?e teapot_response"
    by (rule sleep_accepts_zero) (simp_all add: response_latencies emulator_of_fields)
  note t = add_mock_overwrites[of ?new ?e store1 env0 Map.empty
      "config_of [rate_mock static 0 [ok_response], rate_mock static 0 [teapot_response]] True"
      store0 "''tool''"]
  from t[THEN conjunct2, THEN conjunct2, THEN conjunct2, THEN conjunct2, THEN conjunct2,
      THEN conjunct1, rule_format, OF sel] ok
  have a: "fst (call (add_mock ?new ?e) store1 env0 ''tool'' Map.empty) = Inr teapot_response"
    by (simp add: rate_mock_fields)
  from t[THEN conjunct2, THEN conjunct2, THEN conjunct2, THEN conjunct2, THEN conjunct2,
      THEN conjunct2]
  have b: "emu_mocks (fst (init (config_of [rate_mock static 0 [ok_response],
                                     rate_mock static 0 [teapot_response]] True) store0)) ''tool''
     = Some ?new"
    by (simp add: rate_mock_fields emulator_of_fields)
  from a b show ?thesis ..
qed

subsection \<open>The call log\<close>

lemma call_log:
  "log_of (fst (snd (call e s ev name inp))) (snd (snd (call e s ev name inp))) =
     log_of e s @
     (if record_calls (emu_config e) then
        (case fst (call e s ev name inp) of
           Inl x \<Rightarrow> []
         | Inr r \<Rightarrow> [\<lparr>call_tool_name = name, input_data = inp, response = r, timestamp = now ev\<rparr>])
      else [])"
  by (simp add: call_def Let_def log_of_def list_write_def
      split: option.splits sum.splits prod.splits)

lemma expected_records_Cons:
  "expected_records ((ev, name, inp) # cs) (res # rs) =
     (case res of
        Inl x \<Rightarrow> []
      | Inr r \<Rightarrow> [\<lparr>call_tool_name = name, input_data = inp, response = r, timestamp = now ev\<rparr>])
     @ expected_records cs rs"
  by (simp add: expected_records_def)

lemma run_calls_log:
  "run_calls cs e s = (rs, e', s') \<Longrightarrow>
   log_of e' s' = log_of e s @ (if record_calls (emu_config e) then expected_records cs rs else [])"
proof (induction cs arbitrary: e s rs e' s')
  case Nil
  then show ?case by (simp add: expected_records_def)
next
  case (Cons c cs)
  obtain ev n inp where c: "c = (ev, n, inp)" by (cases c)
  obtain res e1 s1 where st: "call e s ev n inp = (res, e1, s1)" by (cases "call e s ev n inp")
  obtain rs1 where run: "run_calls cs e1 s1 = (rs1, e', s')" and rs: "rs = res # rs1"
    using Cons.prems c st by (auto split: prod.splits)
  have e1: "e1 = fst (snd (call e s ev n inp))" and s1: "s1 = snd (snd (call e s ev n inp))"
    and res: "res = fst (call e s ev n inp)"
    using st by simp_all
  have cfg: "emu_config e1 = emu_config e" using e1 by (simp add: call_frame)
  have step: "log_of e1 s1 = log_of e s @
     (if record_calls (emu_config e) then
        (case res of
           Inl x \<Rightarrow> []
         | Inr r \<Rightarrow> [\<lparr>call_tool_name = n, input_data = inp, response = r, timestamp = now ev\<rparr>])
      else [])"
    unfolding e1 s1 res by (rule call_log)
  from Cons.IH[OF run] cfg
  have "log_of e' s' = log_of e1 s1 @ (if record_calls (emu_config e) then expected_records cs rs1 else [])"
    by simp
  with step show ?case by (simp add: c rs expected_records_Cons)
qed

lemma get_recorded_calls_copy:
  assumes "recorded_calls e < next_ref s"
  shows "fst (get_recorded_calls e s) \<noteq> recorded_calls e"
    and "cells (snd (get_recorded_calls e s)) (fst (get_recorded_calls e s)) = log_of e s"
    and "log_of e (list_write (fst (get_recorded_calls e s)) xs (snd (get_recorded_calls e s))) = log_of e s"
    and "recorded_calls e < next_ref (list_write (fst (get_recorded_calls e s)) xs (snd (get_recorded_calls e s)))"
  using assms by (simp_all add: get_recorded_calls_def new_list_def list_write_def log_of_def)

section \<open>Recording\<close>

text \<open>
  C7. For every sequence of calls: with \<open>record_calls\<close> false the call log is left as
  it was; with \<open>record_calls\<close> true the log grows by exactly one entry per call that
  returned a response, in call order, each holding the tool name, the input and the
  response returned. \<open>get_recorded_calls\<close> returns a new list object with the contents
  of the log: it is not the log's own list, and whatever the caller then writes into it,
  the log and the result of a later \<open>get_recorded_calls\<close> are unchanged.
\<close>

theorem recording_gate:
  assumes "run_calls cs e s = (rs, e', s')"
  shows "(\<not> record_calls (emu_config e) \<longrightarrow> log_of e' s' = log_of e s) \<and>
         (record_calls (emu_config e) \<longrightarrow> log_of e' s' = log_of e s @ expected_records cs rs) \<and>
         length rs = length cs \<and>
         (recorded_calls e < next_ref s \<longrightarrow>
            fst (get_recorded_calls e' s') \<noteq> recorded_calls e' \<and>
            cells (snd (get_recorded_calls e' s')) (fst (get_recorded_calls e' s')) = log_of e' s' \<and>
            (\<forall>xs. log_of e' (list_write (fst (get_recorded_calls e' s')) xs (snd (get_recorded_calls e' s')))
                    = log_of e' s' \<and>
                  cells (snd (get_recorded_calls e'
                           (list_write (fst (get_recorded_calls e' s')) xs (snd (get_recorded_calls e' s')))))
                        (fst (get_recorded_calls e'
                           (list_write (fst (get_recorded_calls e' s')) xs (snd (get_recorded_calls e' s')))))
                    = log_of e' s'))"
proof (intro conjI impI allI)
  assume "\<not> record_calls (emu_config e)"
  with run_calls_log[OF assms] show "log_of e' s' = log_of e s" by simp
next
  assume "record_calls (emu_config e)"
  with run_calls_log[OF assms] show "log_of e' s' = log_of e s @ expected_records cs rs" by simp
next
  show "length rs = length cs" using run_calls_frame[OF assms] by simp
next
  assume "recorded_calls e < next_ref s"
  then have inv: "recorded_calls e' < next_ref s'" using run_calls_frame[OF assms] by simp
  show "fst (get_recorded_calls e' s') \<noteq> recorded_calls e'"
    by (rule get_recorded_calls_copy(1)[OF inv])
  show "cells (snd (get_recorded_calls e' s')) (fst (get_recorded_calls e' s')) = log_of e' s'"
    by (rule get_recorded_calls_copy(2)[OF inv])
  fix xs
  show same: "log_of e' (list_write (fst (get_recorded_calls e' s')) xs (snd (get_recorded_calls e' s')))
      = log_of e' s'"
    by (rule get_recorded_calls_copy(3)[OF inv])
  have inv2: "recorded_calls e' <
      next_ref (list_write (fst (get_recorded_calls e' s')) xs (snd (get_recorded_calls e' s')))"
    by (rule get_recorded_calls_copy(4)[OF inv])
  from get_recorded_calls_copy(2)[OF inv2] same
  show "cells (snd (get_recorded_calls e'
                 (list_write (fst (get_recorded_calls e' s')) xs (snd (get_recorded_calls e' s')))))
              (fst (get_recorded_calls e'
                 (list_write (fst (get_recorded_calls e' s')) xs (snd (get_recorded_calls e' s')))))
          = log_of e' s'"
    by simp
qed

theorem recording_gate_witness:
  "log_of (fst (snd (run_calls [(env0, ''tool'', Map.empty), (env0, ''ghost'', Map.empty)]
                       (emulator_of [rate_mock static 0 [ok_response]] True) store1)))
          (snd (snd (run_calls [(env0, ''tool'', Map.empty), (env0, ''ghost'', Map.empty)]
                       (emulator_of [rate_mock static 0 [ok_response]] True) store1)))
     = [\<lparr>call_tool_name = ''tool'', input_data = Map.empty, response = ok_response, timestamp = 0\<rparr>] \<and>
   log_of (fst (snd (run_calls [(env0, ''tool'', Map.empty), (env0, ''ghost'', Map.empty)]
                       (emulator_of [rate_mock static 0 [ok_response]] False) store1)))
          (snd (snd (run_calls [(env0, ''tool'', Map.empty), (env0, ''ghost'', Map.empty)]
                       (emulator_of [rate_mock static 0 [ok_response]] False) store1)))
     = [] \<and>
   fst (get_recorded_calls
          (fst (snd (run_calls [(env0, ''tool'', Map.empty), (env0, ''ghost'', Map.empty)]
                       (emulator_of [rate_mock static 0 [ok_response]] True) store1)))
          (snd (snd (run_calls [(env0, ''tool'', Map.empty), (env0, ''ghost'', Map.empty)]
                       (emulator_of [rate_mock static 0 [ok_response]] True) store1))))
     \<noteq> recorded_calls (fst (snd (run_calls [(env0, ''tool'', Map.empty), (env0, ''ghost'', Map.empty)]
                       (emulator_of [rate_mock static 0 [ok_response]] True) store1)))"
proof -
  let ?cs = "[(env0, ''tool'', Map.empty), (env0, ''ghost'', Map.empty :: pydict)]"
  let ?m = "rate_mock static 0 [ok_response]"
  have run: "run_calls ?cs (emulator_of [?m] b) store1 =
      (fst (run_calls ?cs (emulator_of [?m] b) store1),
       fst (snd (run_calls ?cs (emulator_of [?m] b) store1)),
       snd (snd (run_calls ?cs (emulator_of [?m] b) store1)))" for b
    by simp
  have reg: "emu_mocks (emulator_of [?m] b) ''tool'' = Some ?m" for b
    by (simp add: emulator_of_fields build_mocks_single rate_mock_fields)
  have sel: "select_response (sequence_positions (emulator_of [?m] b)) env0 ?m Map.empty
      = Inr (ok_response, Map.empty)" for b
    by (simp add: select_response_def fault_injected_def rate_mock_fields py_index_first
        emulator_of_fields)
  have ok: "sleep_accepts (emulator_of [?m] b) ok_response" for b
    by (rule sleep_accepts_zero) (simp_all add: response_latencies emulator_of_fields)
  have c1: "fst (call (emulator_of [?m] b) s env0 ''tool'' Map.empty) = Inr ok_response" for b s
    using reg sel ok by (rule call_registered)
  have rs: "fst (run_calls ?cs (emulator_of [?m] True) store1) =
      [Inr ok_response, Inl (ToolNotFoundError ''ghost'')]"
    by (simp add: split_beta c1 call_unregistered call_frame emulator_of_fields build_mocks_single
        rate_mock_fields)
  have log0: "log_of (emulator_of [?m] b) store1 = []" for b
    by (simp add: log_of_def emulator_of_fields store1_fields)
  have inv: "recorded_calls (emulator_of [?m] True) < next_ref store1"
    by (simp add: emulator_of_fields store1_fields)
  have now0: "now env0 = 0" by (simp add: env0_def)
  have rec: "record_calls (emu_config (emulator_of [?m] True))"
    by (simp add: emulator_of_fields)
  have norec: "\<not> record_calls (emu_config (emulator_of [?m] False))"
    by (simp add: emulator_of_fields)
  note g = recording_gate[OF run[of True]]
  from g[THEN conjunct2, THEN conjunct1, rule_format, OF rec]
  have a: "log_of (fst (snd (run_calls ?cs (emulator_of [?m] True) store1)))
                  (snd (snd (run_calls ?cs (emulator_of [?m] True) store1)))
     = [\<lparr>call_tool_name = ''tool'', input_data = Map.empty, response = ok_response, timestamp = 0\<rparr>]"
    unfolding rs log0 expected_records_def by (simp del: run_calls.simps add: now0)
  from g[THEN conjunct2, THEN conjunct2, THEN conjunct2, rule_format, OF inv, THEN conjunct1]
  have c: "fst (get_recorded_calls (fst (snd (run_calls ?cs (emulator_of [?m] True) store1)))
                  (snd (snd (run_calls ?cs (emulator_of [?m] True) store1))))
     \<noteq> recorded_calls (fst (snd (run_calls ?cs (emulator_of [?m] True) store1)))" .
  from recording_gate[OF run[of False], THEN conjunct1, rule_format, OF norec]
  have b: "log_of (fst (snd (run_calls ?cs (emulator_of [?m] False) store1)))
                  (snd (snd (run_calls ?cs (emulator_of [?m] False) store1))) = []"
    unfolding log0 .
  from a b c show ?thesis by (simp del: run_calls.simps)
qed

end
